theory Spec2Isabelle
  imports Complex_Main
begin

section \<open>The Jaro-Winkler distance of pyjarowinkler/distance.py\<close>

text \<open>
  The module is one file of pure functions over Python strings. This theory embeds them
  one by one, under the names of the source (without the leading underscore, which an
  Isabelle name cannot start with).

  Conventions of the embedding:
  \<^item> a Python \<^verbatim>\<open>str\<close> is a \<^typ>\<open>string\<close>, a list of characters with codes below 256;
  \<^item> a Python \<^verbatim>\<open>float\<close> is an exact rational number (\<^typ>\<open>rat\<close>): the scores are
    quotients of small lengths, and rounding errors of the hardware are not modelled.
    Where the exact value before \<^verbatim>\<open>round\<close> lies within such an error of a half, the
    program may round to the other neighbour; the general theorems below state bounds
    and equalities between results that do not depend on the side taken;
  \<^item> the arguments of the two public functions are dynamically typed, so they are values
    of the datatype \<open>pyval\<close> below; an exception is the left summand of a sum type.
\<close>

subsection \<open>Values and exceptions\<close>

datatype pyval = PNone | PStr string | PList "pyval list" | PTuple "pyval list"

datatype error = JaroDistanceException string | AttributeError

text \<open>
  \<^verbatim>\<open>not x\<close>: \<^verbatim>\<open>None\<close>, the empty string, the empty list and the empty tuple are
  false, every other value is true.
\<close>

fun py_not :: "pyval \<Rightarrow> bool" where
  "py_not PNone = True"
| "py_not (PStr s) = (s = [])"
| "py_not (PList xs) = (xs = [])"
| "py_not (PTuple xs) = (xs = [])"

text \<open>\<^verbatim>\<open>x.__class__.__name__\<close>\<close>

fun class_name :: "pyval \<Rightarrow> string" where
  "class_name PNone = ''NoneType''"
| "class_name (PStr s) = ''str''"
| "class_name (PList xs) = ''list''"
| "class_name (PTuple xs) = ''tuple''"

text \<open>\<^verbatim>\<open>isinstance(second, list)\<close>\<close>

fun is_list :: "pyval \<Rightarrow> bool" where
  "is_list (PList xs) = True"
| "is_list v = False"

subsection \<open>Library functions of Python\<close>

text \<open>
  \<^verbatim>\<open>str.lower\<close> on characters with codes below 256: the letters A to Z and the
  accented capitals 192 to 222 (without the multiplication sign 215) move up by 32.
  On these characters lowering keeps the length of a string. Beyond them it need not
  (the capital I with a dot, code 304, becomes two characters), and \<^verbatim>\<open>_score\<close> chooses
  the shorter string by the lengths before lowering; the theorems on the raw score below
  compare the lengths before lowering, as the program does.
\<close>

definition lower_chr :: "char \<Rightarrow> char" where
  "lower_chr c =
     (let n = (of_char c :: nat) in
      if (65 \<le> n \<and> n \<le> 90) \<or> (192 \<le> n \<and> n \<le> 214) \<or> (216 \<le> n \<and> n \<le> 222)
      then char_of (n + 32) else c)"

definition lower :: "string \<Rightarrow> string" where
  "lower s = map lower_chr s"

text \<open>\<^verbatim>\<open>s[left:right]\<close> for indices that are not negative.\<close>

definition slice :: "string \<Rightarrow> nat \<Rightarrow> nat \<Rightarrow> string" where
  "slice s left right = drop left (take right s)"

text \<open>
  \<^verbatim>\<open>s.index(l)\<close>, the position of the first occurrence. Python raises ValueError when
  there is none; the only call of the module is guarded by a membership test.
\<close>

fun index :: "string \<Rightarrow> char \<Rightarrow> nat" where
  "index [] l = 0"
| "index (c # cs) l = (if c = l then 0 else Suc (index cs l))"

text \<open>
  \<^verbatim>\<open>round(x)\<close> of Python 3 with one argument: the nearest integer, a tie going to the
  even neighbour.
\<close>

definition py_round :: "rat \<Rightarrow> int" where
  "py_round x =
     (let f = \<lfloor>x\<rfloor>; d = x - of_int f in
      if d < 1 / 2 then f
      else if 1 / 2 < d then f + 1
      else if even f then f else f + 1)"

subsection \<open>The private functions\<close>

text \<open>
  \<^verbatim>\<open>_get_matching_characters(first, second)\<close>. The loop over \<^verbatim>\<open>enumerate(first)\<close> is
  \<open>matching_loop\<close>: its arguments are the limit, the index \<open>i\<close>, the characters of
  \<open>first\<close> from \<open>i\<close> on, the working copy of \<open>second\<close> and the list \<open>common\<close>.
\<close>

fun matching_loop :: "nat \<Rightarrow> nat \<Rightarrow> string \<Rightarrow> string \<Rightarrow> string \<Rightarrow> string" where
  "matching_loop limit i [] second common = common"
| "matching_loop limit i (l # ls) second common =
     (let left = nat (max 0 (int i - int limit));
          right = min (i + limit + 1) (length second)
      in if l \<in> set (slice second left right)
         then matching_loop limit (i + 1) ls
                (take (index second l) second @ ''*'' @ drop (index second l + 1) second)
                (common @ [l])
         else matching_loop limit (i + 1) ls second common)"

definition get_matching_characters :: "string \<Rightarrow> string \<Rightarrow> string" where
  "get_matching_characters first second =
     (let limit = min (length first) (length second) div 2
      in matching_loop limit 0 first second [])"

text \<open>
  The same loop with a ghost variable: the list of the positions \<^verbatim>\<open>second.index(l)\<close>
  that the matches overwrite, in the order of the matches.
\<close>

fun consumed_loop :: "nat \<Rightarrow> nat \<Rightarrow> string \<Rightarrow> string \<Rightarrow> nat list \<Rightarrow> nat list" where
  "consumed_loop limit i [] second ps = ps"
| "consumed_loop limit i (l # ls) second ps =
     (let left = nat (max 0 (int i - int limit));
          right = min (i + limit + 1) (length second)
      in if l \<in> set (slice second left right)
         then consumed_loop limit (i + 1) ls
                (take (index second l) second @ ''*'' @ drop (index second l + 1) second)
                (ps @ [index second l])
         else consumed_loop limit (i + 1) ls second ps)"

definition consumed_positions :: "string \<Rightarrow> string \<Rightarrow> nat list" where
  "consumed_positions first second =
     (let limit = min (length first) (length second) div 2
      in consumed_loop limit 0 first second [])"

text \<open>\<^verbatim>\<open>_transpositions(first, second)\<close>\<close>

definition transpositions :: "string \<Rightarrow> string \<Rightarrow> nat" where
  "transpositions first second =
     length (filter (\<lambda>(f, s). \<not> f = s) (zip first second)) div 2"

text \<open>\<^verbatim>\<open>_score(first, second)\<close>, for two strings.\<close>

definition score :: "string \<Rightarrow> string \<Rightarrow> rat" where
  "score first second =
     (let shorter0 = lower first; longer0 = lower second;
          (longer, shorter) =
             (if length first > length second then (shorter0, longer0) else (longer0, shorter0));
          m1 = get_matching_characters shorter longer;
          m2 = get_matching_characters longer shorter
      in if length m1 = 0 \<or> length m2 = 0 then 0
         else (of_nat (length m1) / of_nat (length shorter)
               + of_nat (length m2) / of_nat (length longer)
               + of_int (int (length m1) - int (transpositions m1 m2)) / of_nat (length m1))
              / 3)"

text \<open>\<^verbatim>\<open>_get_diff_index(first, second)\<close>; the loop over \<^verbatim>\<open>range(0, max_len)\<close> is \<open>diff_loop\<close>.\<close>

fun diff_loop :: "nat \<Rightarrow> nat \<Rightarrow> string \<Rightarrow> string \<Rightarrow> int" where
  "diff_loop i max_len (x # xs) (y # ys) =
     (if i < max_len then (if \<not> x = y then int i else diff_loop (i + 1) max_len xs ys)
      else int max_len)"
| "diff_loop i max_len xs ys = int max_len"

definition get_diff_index :: "string \<Rightarrow> string \<Rightarrow> int" where
  "get_diff_index first second =
     (if first = second then - 1
      else if first = [] \<or> second = [] then 0
      else diff_loop 0 (min (length first) (length second)) first second)"

text \<open>\<^verbatim>\<open>_get_prefix(first, second)\<close>\<close>

definition get_prefix :: "string \<Rightarrow> string \<Rightarrow> string" where
  "get_prefix first second =
     (if first = [] \<or> second = [] then []
      else let index = get_diff_index first second
           in if index = - 1 then first
              else if index = 0 then []
              else take (nat index) first)"

subsection \<open>The public functions\<close>

text \<open>
  \<^verbatim>\<open>get_jaro_distance(first, second, winkler, winkler_ajustment, scaling)\<close>. After the
  guard \<^verbatim>\<open>_score\<close> calls \<^verbatim>\<open>lower\<close> on both arguments, a method that only a string
  has: on any other value the call raises AttributeError.
\<close>

definition get_jaro_distance :: "pyval \<Rightarrow> pyval \<Rightarrow> bool \<Rightarrow> bool \<Rightarrow> rat \<Rightarrow> error + rat" where
  "get_jaro_distance first second winkler winkler_ajustment scaling =
     (if py_not first \<or> py_not second
      then Inl (JaroDistanceException
                  (''Cannot calculate distance from NoneType ('' @ class_name first
                   @ '', '' @ class_name second @ '')''))
      else case (first, second) of
        (PStr a, PStr b) \<Rightarrow>
          (let jaro = score a b;
               cl = min (length (get_prefix a b)) 4
           in if winkler \<and> winkler_ajustment
              then Inr (of_int (py_round ((jaro + scaling * of_nat cl * (1 - jaro)) * 100)) / 100)
              else Inr jaro)
      | _ \<Rightarrow> Inl AttributeError)"

text \<open>
  The list comprehension of \<^verbatim>\<open>get_jaro_distance_array\<close>: the elements are evaluated in
  order and the first exception ends the evaluation.
\<close>

fun distances :: "pyval \<Rightarrow> pyval list \<Rightarrow> bool \<Rightarrow> bool \<Rightarrow> rat \<Rightarrow> error + rat list" where
  "distances first [] winkler winkler_ajustment scaling = Inr []"
| "distances first (i # rest) winkler winkler_ajustment scaling =
     (case get_jaro_distance first i winkler winkler_ajustment scaling of
        Inl e \<Rightarrow> Inl e
      | Inr d \<Rightarrow>
          (case distances first rest winkler winkler_ajustment scaling of
             Inl e \<Rightarrow> Inl e
           | Inr ds \<Rightarrow> Inr (d # ds)))"

text \<open>
  \<^verbatim>\<open>get_jaro_distance_array(first, second, winkler, winkler_ajustment, scaling)\<close>.
  After the first statement \<^verbatim>\<open>second\<close> is a list, so the last case is never taken.
\<close>

definition get_jaro_distance_array ::
  "pyval \<Rightarrow> pyval \<Rightarrow> bool \<Rightarrow> bool \<Rightarrow> rat \<Rightarrow> error + rat list" where
  "get_jaro_distance_array first second winkler winkler_ajustment scaling =
     (let second' = (if \<not> is_list second then PList [second] else second)
      in case second' of
           PList cs \<Rightarrow> distances first cs winkler winkler_ajustment scaling
         | _ \<Rightarrow> Inr [])"

subsection \<open>Notions of the specification\<close>

text \<open>
  The length of the common prefix in the words of the specification: characters are
  compared as they are, from the left, up to the first pair that differs or the end of
  the shorter string.
\<close>

fun spec_common_prefix_length :: "string \<Rightarrow> string \<Rightarrow> nat" where
  "spec_common_prefix_length (x # xs) (y # ys) =
     (if x = y then Suc (spec_common_prefix_length xs ys) else 0)"
| "spec_common_prefix_length xs ys = 0"

text \<open>A text value or an absent one: a string or \<^verbatim>\<open>None\<close>.\<close>

fun text_or_none :: "pyval \<Rightarrow> bool" where
  "text_or_none PNone = True"
| "text_or_none (PStr s) = True"
| "text_or_none (PList xs) = False"
| "text_or_none (PTuple xs) = False"

section \<open>Properties of the helper functions\<close>

subsection \<open>Matching characters\<close>

text \<open>Every round of the loop appends at most one character.\<close>

lemma matching_loop_length:
  "length (matching_loop limit i xs w c) \<le> length c + length xs"
proof (induction xs arbitrary: i w c)
  case Nil
  then show ?case by simp
next
  case (Cons l ls)
  have a: "length (matching_loop limit (i + 1) ls w' (c @ [l])) \<le> length c + length (l # ls)" for w'
    using Cons.IH [of "i + 1" w' "c @ [l]"] by simp
  have b: "length (matching_loop limit (i + 1) ls w c) \<le> length c + length (l # ls)"
    using Cons.IH [of "i + 1" w c] by simp
  show ?case using a b by (simp add: Let_def)
qed

lemma get_matching_characters_length:
  "length (get_matching_characters first second) \<le> length first"
  using matching_loop_length [of _ 0 first second "[]"]
  by (simp add: get_matching_characters_def Let_def)

text \<open>
  Matching a string against itself: after \<open>n\<close> rounds the working copy is \<open>n\<close> stars
  followed by the rest of the string, and the next character is found at its own place.
\<close>

lemma nth_in_slice:
  assumes "left \<le> n" "n < right" "n < length w"
  shows "w ! n \<in> set (slice w left right)"
proof -
  have len: "n - left < length (slice w left right)"
    using assms by (simp add: slice_def)
  have "slice w left right ! (n - left) = w ! n"
    using assms by (simp add: slice_def)
  then show ?thesis using len nth_mem by metis
qed

lemma index_after_stars:
  "l \<noteq> CHR ''*'' \<Longrightarrow> index (replicate n CHR ''*'' @ l # ls) l = n"
  by (induction n) auto

lemma mark_next:
  "take (index (replicate n CHR ''*'' @ l # ls) l) (replicate n CHR ''*'' @ l # ls) @ ''*''
     @ drop (index (replicate n CHR ''*'' @ l # ls) l + 1) (replicate n CHR ''*'' @ l # ls)
   = replicate (Suc n) CHR ''*'' @ ls"
proof (cases "l = CHR ''*''")
  case True
  have "index (replicate n CHR ''*'' @ l # ls) l = 0"
    using True by (cases n) auto
  then show ?thesis using True by (cases n) (simp_all add: replicate_append_same)
next
  case False
  then show ?thesis
    by (simp add: index_after_stars replicate_append_same)
qed

lemma matching_loop_same:
  "matching_loop limit n rest (replicate n CHR ''*'' @ rest) common = common @ rest"
proof (induction rest arbitrary: n common)
  case Nil
  then show ?case by simp
next
  case (Cons l ls)
  let ?w = "replicate n CHR ''*'' @ l # ls"
  have "?w ! n \<in> set (slice ?w (nat (max 0 (int n - int limit))) (min (n + limit + 1) (length ?w)))"
    by (rule nth_in_slice) simp_all
  then have inwin: "l \<in> set (slice ?w (nat (max 0 (int n - int limit))) (min (n + limit + 1) (length ?w)))"
    by (simp add: nth_append)
  have "matching_loop limit n (l # ls) ?w common
      = matching_loop limit (n + 1) ls (replicate (Suc n) CHR ''*'' @ ls) (common @ [l])"
    using inwin by (simp only: matching_loop.simps Let_def if_True mark_next)
  also have "\<dots> = (common @ [l]) @ ls"
    using Cons.IH [of "Suc n" "common @ [l]"] by simp
  finally show ?case by simp
qed

lemma get_matching_characters_same: "get_matching_characters s s = s"
  using matching_loop_same [of _ 0 s "[]"] by (simp add: get_matching_characters_def)

subsection \<open>The positions that the matches overwrite\<close>

text \<open>
  The ghost list has one entry for each matched character. When \<open>first\<close> holds no star, a
  position that was overwritten is never found again, so the entries are distinct.
\<close>

lemma consumed_loop_length:
  "length (consumed_loop limit i ls w ps) + length common
     = length (matching_loop limit i ls w common) + length ps"
proof (induction ls arbitrary: i w ps common)
  case Nil
  then show ?case by simp
next
  case (Cons l ls)
  have a: "length (consumed_loop limit (i + 1) ls w' (ps @ [k])) + length common
      = length (matching_loop limit (i + 1) ls w' (common @ [l])) + length ps" for w' k
    using Cons.IH [of "i + 1" w' "ps @ [k]" "common @ [l]"] by simp
  have b: "length (consumed_loop limit (i + 1) ls w ps) + length common
      = length (matching_loop limit (i + 1) ls w common) + length ps"
    by (rule Cons.IH)
  show ?case using a b by (simp add: Let_def)
qed

lemma consumed_positions_length:
  "length (consumed_positions first second) = length (get_matching_characters first second)"
  using consumed_loop_length [of _ 0 first second "[]" "[]"]
  by (simp add: consumed_positions_def get_matching_characters_def)

lemma slice_subset: "set (slice w left right) \<subseteq> set w"
  unfolding slice_def by (meson order_trans set_drop_subset set_take_subset)

lemma index_first: "l \<in> set w \<Longrightarrow> index w l < length w \<and> w ! index w l = l"
  by (induction w) auto

lemma mark_is_update:
  "i < length w \<Longrightarrow> take i w @ ''*'' @ drop (i + 1) w = w[i := CHR ''*'']"
  by (simp add: upd_conv_take_nth_drop)

lemma consumed_loop_distinct:
  assumes "CHR ''*'' \<notin> set ls" "distinct ps" "\<forall>p\<in>set ps. p < length w \<and> w ! p = CHR ''*''"
  shows "distinct (consumed_loop limit i ls w ps)"
  using assms
proof (induction ls arbitrary: i w ps)
  case Nil
  then show ?case by simp
next
  case (Cons l ls)
  let ?left = "nat (max 0 (int i - int limit))" and ?right = "min (i + limit + 1) (length w)"
  show ?case
  proof (cases "l \<in> set (slice w ?left ?right)")
    case False
    then have "consumed_loop limit i (l # ls) w ps = consumed_loop limit (i + 1) ls w ps"
      by (simp add: Let_def)
    then show ?thesis using Cons.IH [of ps w "i + 1"] Cons.prems by simp
  next
    case True
    let ?k = "index w l"
    have lw: "l \<in> set w" using True slice_subset by blast
    have k: "?k < length w" "w ! ?k = l" using index_first [OF lw] by simp_all
    have star: "l \<noteq> CHR ''*''" using Cons.prems(1) by auto
    have fresh: "?k \<notin> set ps" using Cons.prems(3) k(2) star by auto
    have step: "consumed_loop limit i (l # ls) w ps
        = consumed_loop limit (i + 1) ls (w[?k := CHR ''*'']) (ps @ [?k])"
      using True mark_is_update [OF k(1)] by (simp add: Let_def)
    have "distinct (consumed_loop limit (i + 1) ls (w[?k := CHR ''*'']) (ps @ [?k]))"
    proof (rule Cons.IH)
      show "CHR ''*'' \<notin> set ls" using Cons.prems(1) by simp
      show "distinct (ps @ [?k])" using Cons.prems(2) fresh by simp
      show "\<forall>p\<in>set (ps @ [?k]). p < length (w[?k := CHR ''*'']) \<and> w[?k := CHR ''*''] ! p = CHR ''*''"
        using Cons.prems(3) k(1) by (auto simp: nth_list_update)
    qed
    then show ?thesis by (simp only: step)
  qed
qed

lemma consumed_positions_distinct:
  "CHR ''*'' \<notin> set first \<Longrightarrow> distinct (consumed_positions first second)"
  using consumed_loop_distinct [of first "[]" second _ 0]
  by (simp add: consumed_positions_def)

subsection \<open>Transpositions\<close>

lemma transpositions_le: "transpositions m1 m2 \<le> length m1"
proof -
  have "length (filter (\<lambda>(f, s). \<not> f = s) (zip m1 m2)) \<le> length (zip m1 m2)"
    by (rule length_filter_le)
  then have "length (filter (\<lambda>(f, s). \<not> f = s) (zip m1 m2)) \<le> length m1" by simp
  then show ?thesis unfolding transpositions_def by linarith
qed

lemma transpositions_commute: "transpositions m1 m2 = transpositions m2 m1"
proof -
  have "length (filter (\<lambda>(f, s). \<not> f = s) (zip xs ys))
      = length (filter (\<lambda>(f, s). \<not> f = s) (zip ys xs))" for xs ys :: string
    by (induction xs ys rule: list_induct2') auto
  then show ?thesis by (simp add: transpositions_def)
qed

lemma transpositions_same: "transpositions s s = 0"
proof -
  have "filter (\<lambda>(f, s). \<not> f = s) (zip xs xs) = []" for xs :: string
    by (induction xs) auto
  then show ?thesis by (simp add: transpositions_def)
qed

subsection \<open>Rounding\<close>

lemma py_round_cases:
  "py_round x = \<lfloor>x\<rfloor> \<or> py_round x = \<lfloor>x\<rfloor> + 1"
  by (simp add: py_round_def Let_def)

lemma py_round_ge: "of_int n \<le> x \<Longrightarrow> n \<le> py_round x"
proof -
  assume "of_int n \<le> x"
  then have "n \<le> \<lfloor>x\<rfloor>" by (simp add: le_floor_iff)
  then show ?thesis using py_round_cases [of x] by linarith
qed

lemma py_round_le: "x \<le> of_int n \<Longrightarrow> py_round x \<le> n"
proof -
  assume h: "x \<le> of_int n"
  show ?thesis
  proof (cases "x = of_int n")
    case True
    then show ?thesis by (simp add: py_round_def)
  next
    case False
    with h have "x < of_int n" by simp
    then have "\<lfloor>x\<rfloor> < n" by (simp add: floor_less_iff)
    then show ?thesis using py_round_cases [of x] by linarith
  qed
qed

lemma py_round_near: "x - 1 / 2 \<le> of_int (py_round x) \<and> of_int (py_round x) \<le> x + 1 / 2"
proof -
  have fl: "of_int \<lfloor>x\<rfloor> \<le> x" "x < of_int \<lfloor>x\<rfloor> + 1" by linarith+
  consider (lo) "x - of_int \<lfloor>x\<rfloor> < 1 / 2" | (hi) "1 / 2 < x - of_int \<lfloor>x\<rfloor>"
    | (tie) "x - of_int \<lfloor>x\<rfloor> = 1 / 2" by linarith
  then show ?thesis
  proof cases
    case lo
    then have e: "py_round x = \<lfloor>x\<rfloor>" by (simp add: py_round_def Let_def)
    show ?thesis unfolding e using fl lo by linarith
  next
    case hi
    then have e: "py_round x = \<lfloor>x\<rfloor> + 1" by (simp add: py_round_def Let_def)
    have "rat_of_int (\<lfloor>x\<rfloor> + 1) = of_int \<lfloor>x\<rfloor> + 1" by simp
    then show ?thesis unfolding e using fl hi by linarith
  next
    case tie
    have "rat_of_int (\<lfloor>x\<rfloor> + 1) = of_int \<lfloor>x\<rfloor> + 1" by simp
    then show ?thesis using tie py_round_cases [of x] by (elim disjE) (simp_all only:, linarith+)
  qed
qed

lemma py_round_int: "py_round (of_int n) = n"
  by (simp add: py_round_def)

lemma rounded_range:
  fixes x :: rat
  assumes "0 \<le> x" "x \<le> 1"
  shows "0 \<le> rat_of_int (py_round (x * 100)) / 100 \<and> rat_of_int (py_round (x * 100)) / 100 \<le> 1"
proof -
  have "0 \<le> py_round (x * 100)" using assms by (intro py_round_ge) simp
  moreover have "py_round (x * 100) \<le> 100" using assms by (intro py_round_le) simp
  ultimately show ?thesis by simp
qed

subsection \<open>The raw score\<close>

lemma third_range:
  fixes x y z :: rat
  assumes "0 \<le> x \<and> x \<le> 1" "0 \<le> y \<and> y \<le> 1" "0 \<le> z \<and> z \<le> 1"
  shows "0 \<le> (x + y + z) / 3 \<and> (x + y + z) / 3 \<le> 1"
  using assms by simp

lemma score_range: "0 \<le> score a b \<and> score a b \<le> 1"
proof -
  have avg: "0 \<le> (of_nat (length (get_matching_characters s l)) / of_nat (length s)
               + of_nat (length (get_matching_characters l s)) / of_nat (length l)
               + of_int (int (length (get_matching_characters s l))
                    - int (transpositions (get_matching_characters s l) (get_matching_characters l s)))
                 / of_nat (length (get_matching_characters s l))) / (3::rat)
           \<and> (of_nat (length (get_matching_characters s l)) / of_nat (length s)
               + of_nat (length (get_matching_characters l s)) / of_nat (length l)
               + of_int (int (length (get_matching_characters s l))
                    - int (transpositions (get_matching_characters s l) (get_matching_characters l s)))
                 / of_nat (length (get_matching_characters s l))) / (3::rat) \<le> 1"
    (is "0 \<le> (?x + ?y + ?z) / 3 \<and> (?x + ?y + ?z) / 3 \<le> 1") for s l :: string
  proof -
    let ?m1 = "get_matching_characters s l" and ?m2 = "get_matching_characters l s"
    have x: "0 \<le> ?x \<and> ?x \<le> 1"
      using get_matching_characters_length [of s l] by (simp add: divide_le_eq_1)
    have y: "0 \<le> ?y \<and> ?y \<le> 1"
      using get_matching_characters_length [of l s] by (simp add: divide_le_eq_1)
    have t: "transpositions ?m1 ?m2 \<le> length ?m1" by (rule transpositions_le)
    have z: "0 \<le> ?z \<and> ?z \<le> 1"
      using t by (simp add: divide_le_eq_1)
    show ?thesis using x y z by (rule third_range)
  qed
  show ?thesis
    using avg [of "lower a" "lower b"] avg [of "lower b" "lower a"]
    by (simp add: score_def Let_def)
qed

lemma score_same: "s \<noteq> [] \<Longrightarrow> score s s = 1"
  by (simp add: score_def get_matching_characters_same transpositions_same lower_def)

lemma score_unequal_lengths:
  "length a < length b \<Longrightarrow> score a b = score b a"
  by (simp add: score_def Let_def)

lemma score_equal_lengths:
  assumes "length a = length b"
  shows "score a b =
     (let m1 = get_matching_characters (lower a) (lower b);
          m2 = get_matching_characters (lower b) (lower a)
      in if length m1 = 0 \<or> length m2 = 0 then 0
         else (of_nat (length m1) / of_nat (length (lower a))
               + of_nat (length m2) / of_nat (length (lower b))
               + of_int (int (length m1) - int (transpositions m1 m2)) / of_nat (length m1)) / 3)"
  using assms by (simp add: score_def Let_def)




lemma winkler_range:
  fixes jaro scaling :: rat and cl :: nat
  assumes j: "0 \<le> jaro" "jaro \<le> 1" and s: "0 \<le> scaling" "scaling \<le> 1 / 4" and c: "cl \<le> 4"
  shows "jaro \<le> jaro + scaling * of_nat cl * (1 - jaro)"
    and "jaro + scaling * of_nat cl * (1 - jaro) \<le> 1"
proof -
  have k0: "0 \<le> scaling * of_nat cl" using s by simp
  have "scaling * of_nat cl \<le> (1 / 4) * 4"
    using s c by (intro mult_mono) auto
  then have k1: "scaling * of_nat cl \<le> 1" by simp
  have "0 \<le> scaling * of_nat cl * (1 - jaro)" using k0 j by simp
  then show "jaro \<le> jaro + scaling * of_nat cl * (1 - jaro)" by simp
  have "scaling * of_nat cl * (1 - jaro) \<le> 1 * (1 - jaro)"
    using k1 j by (intro mult_right_mono) auto
  then show "jaro + scaling * of_nat cl * (1 - jaro) \<le> 1" by simp
qed

lemma winkler_rounded_lower:
  fixes jaro :: rat and cl :: nat
  assumes j: "0 \<le> jaro" "jaro \<le> 1" and c: "1 \<le> cl"
  shows "jaro \<le> 19 / 20 \<Longrightarrow>
           jaro \<le> of_int (py_round ((jaro + 1 / 10 * of_nat cl * (1 - jaro)) * 100)) / 100"
    and "19 / 20 < jaro \<Longrightarrow>
           19 / 20 \<le> rat_of_int (py_round ((jaro + 1 / 10 * of_nat cl * (1 - jaro)) * 100)) / 100"
proof -
  let ?adj = "jaro + 1 / 10 * of_nat cl * (1 - jaro)"
  have c1: "(1::rat) \<le> of_nat cl" using c by simp
  have "1 * (1 - jaro) \<le> of_nat cl * (1 - jaro)"
    using c1 j by (intro mult_right_mono) auto
  then have bonus: "1 / 10 * (1 - jaro) \<le> 1 / 10 * of_nat cl * (1 - jaro)" by simp
  have near: "?adj * 100 - 1 / 2 \<le> of_int (py_round (?adj * 100))"
    using py_round_near [of "?adj * 100"] by simp
  {
    assume "jaro \<le> 19 / 20"
    then have "jaro * 100 \<le> ?adj * 100 - 1 / 2" using bonus by simp
    then have "jaro * 100 \<le> of_int (py_round (?adj * 100))" using near by linarith
    then show "jaro \<le> of_int (py_round (?adj * 100)) / 100" by simp
  }
  {
    assume "19 / 20 < jaro"
    then have "of_int 95 \<le> ?adj * 100" using bonus j by simp
    then have "95 \<le> py_round (?adj * 100)" by (rule py_round_ge)
    then have "rat_of_int 95 \<le> of_int (py_round (?adj * 100))" by (simp only: of_int_le_iff)
    then show "19 / 20 \<le> rat_of_int (py_round (?adj * 100)) / 100" by simp
  }
qed

lemma winkler_rounded_sharp:
  fixes jaro :: rat and cl :: nat
  assumes "1 / 20 \<le> of_nat cl * (1 - jaro)"
  shows "jaro \<le> of_int (py_round ((jaro + 1 / 10 * of_nat cl * (1 - jaro)) * 100)) / 100"
proof -
  let ?adj = "jaro + 1 / 10 * of_nat cl * (1 - jaro)"
  have near: "?adj * 100 - 1 / 2 \<le> of_int (py_round (?adj * 100))"
    using py_round_near [of "?adj * 100"] by simp
  have "jaro * 100 \<le> ?adj * 100 - 1 / 2" using assms by simp
  then have "jaro * 100 \<le> of_int (py_round (?adj * 100))" using near by linarith
  then show ?thesis by simp
qed

lemma winkler_rounded_one:
  "rat_of_int (py_round ((1 + scaling * of_nat cl * (1 - 1)) * 100)) / 100 = 1"
  using py_round_int [of 100] by simp

subsection \<open>The common prefix\<close>

lemma diff_loop_prefix:
  "max_len = i + min (length xs) (length ys) \<Longrightarrow>
   diff_loop i max_len xs ys = int (i + spec_common_prefix_length xs ys)"
proof (induction xs ys arbitrary: i rule: list_induct2')
  case (4 x xs y ys)
  then show ?case by simp
qed simp_all

lemma spec_common_prefix_length_same: "spec_common_prefix_length s s = length s"
  by (induction s) simp_all


lemma get_prefix_spec: "get_prefix a b = take (spec_common_prefix_length a b) a"
proof (cases "a = [] \<or> b = []")
  case True
  then show ?thesis by (auto simp: get_prefix_def)
next
  case ne: False
  show ?thesis
  proof (cases "a = b")
    case True
    then show ?thesis
      using ne by (simp add: get_prefix_def get_diff_index_def spec_common_prefix_length_same)
  next
    case False
    have "get_diff_index a b = int (spec_common_prefix_length a b)"
      using ne False diff_loop_prefix [of "min (length a) (length b)" 0 a b]
      by (simp add: get_diff_index_def)
    then show ?thesis using ne by (simp add: get_prefix_def Let_def)
  qed
qed

subsection \<open>The public functions\<close>

text \<open>On two non-empty strings \<^verbatim>\<open>get_jaro_distance\<close> returns a value.\<close>

lemma get_jaro_distance_strings:
  assumes "a \<noteq> []" "b \<noteq> []"
  shows "get_jaro_distance (PStr a) (PStr b) winkler winkler_ajustment scaling =
     Inr (if winkler \<and> winkler_ajustment
          then of_int (py_round ((score a b
                 + scaling * of_nat (min (length (get_prefix a b)) 4) * (1 - score a b)) * 100)) / 100
          else score a b)"
  using assms by (simp add: get_jaro_distance_def Let_def)


text \<open>The comprehension over a list of non-empty strings, and over a list with a failing element.\<close>

lemma distances_strings:
  assumes "a \<noteq> []" "[] \<notin> set ss"
  shows "\<exists>ds. distances (PStr a) (map PStr ss) winkler winkler_ajustment scaling = Inr ds
           \<and> length ds = length ss
           \<and> (\<forall>i<length ss.
                 get_jaro_distance (PStr a) (PStr (ss ! i)) winkler winkler_ajustment scaling
                   = Inr (ds ! i))"
  using assms(2)
proof (induction ss)
  case Nil
  then show ?case by simp
next
  case (Cons t ts)
  then obtain ds where ds: "distances (PStr a) (map PStr ts) winkler winkler_ajustment scaling = Inr ds"
      "length ds = length ts"
      "\<forall>i<length ts. get_jaro_distance (PStr a) (PStr (ts ! i)) winkler winkler_ajustment scaling
                   = Inr (ds ! i)"
    by auto
  from Cons.prems have "t \<noteq> []" by auto
  then obtain d where d: "get_jaro_distance (PStr a) (PStr t) winkler winkler_ajustment scaling = Inr d"
    using get_jaro_distance_strings [OF assms(1), of t] by blast
  have "distances (PStr a) (map PStr (t # ts)) winkler winkler_ajustment scaling = Inr (d # ds)"
    using d ds(1) by simp
  moreover have "length (d # ds) = length (t # ts)" using ds(2) by simp
  moreover have "\<forall>i<length (t # ts).
      get_jaro_distance (PStr a) (PStr ((t # ts) ! i)) winkler winkler_ajustment scaling
        = Inr ((d # ds) ! i)"
    using d ds(3) by (auto simp: nth_Cons split: nat.splits)
  ultimately show ?case by blast
qed

lemma distances_fail_fast:
  assumes "a \<noteq> []" "[] \<notin> set pre"
    and "get_jaro_distance (PStr a) c winkler winkler_ajustment scaling = Inl e"
  shows "distances (PStr a) (map PStr pre @ c # post) winkler winkler_ajustment scaling = Inl e"
  using assms(2)
proof (induction pre)
  case Nil
  then show ?case using assms(3) by simp
next
  case (Cons t ts)
  then have "t \<noteq> []" by auto
  then obtain d where "get_jaro_distance (PStr a) (PStr t) winkler winkler_ajustment scaling = Inr d"
    using get_jaro_distance_strings [OF assms(1), of t] by blast
  then show ?case using Cons by simp
qed

subsection \<open>Evaluations\<close>

lemma sym_left: "score ''babaa'' ''aaabb'' = 17 / 20"
  by code_simp

lemma sym_right: "score ''aaabb'' ''babaa'' = 13 / 15"
  by code_simp

lemma star_matching: "get_matching_characters ''a*'' ''ab'' = ''a*''"
  by code_simp

lemma star_positions: "consumed_positions ''a*'' ''ab'' = [0, 0]"
  by code_simp

lemma star_score: "score ''a*'' ''ab'' = 5 / 6"
  by code_simp

lemma long_adjusted:
  "get_jaro_distance (PStr ''abcdefghijklmnopq'') (PStr ''axcdefghijklmnopq'') True True (1 / 10)
     = Inr (24 / 25)"
  by code_simp

lemma long_raw: "score ''abcdefghijklmnopq'' ''axcdefghijklmnopq'' = 49 / 51"
  by code_simp

lemma long_prefix: "get_prefix ''abcdefghijklmnopq'' ''axcdefghijklmnopq'' = ''a''"
  by code_simp










lemma martha_raw: "score ''MARTHA'' ''MARHTA'' = 17 / 18"
  by code_simp

lemma martha_prefix: "get_prefix ''MARTHA'' ''MARHTA'' = ''MAR''"
  by code_simp

lemma deep_prefix: "get_prefix ''abcdefghijklmnopq'' ''abcdefghijklmnopx'' = ''abcdefghijklmnop''"
  by code_simp

lemma deep_raw: "score ''abcdefghijklmnopq'' ''abcdefghijklmnopx'' = 49 / 51"
  by code_simp

lemma martha_matches:
  "length (get_matching_characters (lower ''MARTHA'') (lower ''MARHTA''))
     = length (get_matching_characters (lower ''MARHTA'') (lower ''MARTHA''))"
  by code_simp

lemma tuple_whole:
  "get_jaro_distance (PStr ''cat'') (PTuple [PStr ''cat'', PStr ''bat'']) True True (1 / 10)
     = Inl AttributeError"
  by (simp add: get_jaro_distance_def)

lemma batch_example:
  "get_jaro_distance_array (PStr ''cat'') (PList [PStr ''cat'', PStr ''bat'', PStr ''xyz''])
      True True (1 / 10) = Inr [1, 39 / 50, 0]"
  by code_simp

section \<open>The claims\<close>

text \<open>
  Claim C1: for non-empty strings \<open>a\<close> and \<open>b\<close> and a scaling factor between 0 and 0.25,
  \<^verbatim>\<open>get_jaro_distance\<close> returns a value, and the value lies between 0 and 1, with the
  Winkler adjustment and without it.
\<close>

theorem get_jaro_distance_range:
  assumes "a \<noteq> []" "b \<noteq> []" "0 \<le> scaling" "scaling \<le> 1 / 4"
  shows "\<exists>r. get_jaro_distance (PStr a) (PStr b) winkler winkler_ajustment scaling = Inr r
             \<and> 0 \<le> r \<and> r \<le> 1"
proof -
  let ?jaro = "score a b" and ?cl = "min (length (get_prefix a b)) 4"
  have j: "0 \<le> ?jaro" "?jaro \<le> 1" using score_range [of a b] by simp_all
  have w: "0 \<le> ?jaro + scaling * of_nat ?cl * (1 - ?jaro)"
          "?jaro + scaling * of_nat ?cl * (1 - ?jaro) \<le> 1"
    using winkler_range [OF j assms(3,4), of ?cl] j by simp_all
  show ?thesis
  proof (cases "winkler \<and> winkler_ajustment")
    case True
    have "get_jaro_distance (PStr a) (PStr b) winkler winkler_ajustment scaling
        = Inr (of_int (py_round ((?jaro + scaling * of_nat ?cl * (1 - ?jaro)) * 100)) / 100)"
      using True by (simp add: get_jaro_distance_strings [OF assms(1,2)])
    with rounded_range [OF w] show ?thesis by blast
  next
    case False
    have "get_jaro_distance (PStr a) (PStr b) winkler winkler_ajustment scaling = Inr ?jaro"
      using False by (auto simp add: get_jaro_distance_strings [OF assms(1,2)])
    with j show ?thesis by blast
  qed
qed

theorem get_jaro_distance_range_witness:
  "''ab'' \<noteq> [] \<and> ''ba'' \<noteq> [] \<and> (0::rat) \<le> 1 / 4 \<and> (1::rat) / 4 \<le> 1 / 4
   \<and> (\<exists>r. get_jaro_distance (PStr ''ab'') (PStr ''ba'') True True (1 / 4) = Inr r \<and> 0 \<le> r \<and> r \<le> 1)"
  using get_jaro_distance_range [of "''ab''" "''ba''" "1 / 4" True True] by simp

text \<open>
  Claim C2: \<^verbatim>\<open>get_jaro_distance("MARTHA", "MARHTA")\<close> with the default options (both
  flags on, scaling 0.1) returns 0.96.
\<close>

theorem martha_marhta_default:
  "get_jaro_distance (PStr ''MARTHA'') (PStr ''MARHTA'') True True (1 / 10) = Inr (96 / 100)"
  by code_simp

text \<open>
  Claim C3: the raw score is symmetric, \<^verbatim>\<open>_score(a, b) == _score(b, a)\<close> for non-empty
  strings. It is not: for two strings of the same length the third term of the average
  divides by the number of matches of the first argument against the second, and the
  two directions may find different numbers of matches.
\<close>

theorem score_symmetry_counterexample:
  "''babaa'' \<noteq> [] \<and> ''aaabb'' \<noteq> [] \<and> score ''babaa'' ''aaabb'' \<noteq> score ''aaabb'' ''babaa''"
  by (simp add: sym_left sym_right)

text \<open>
  Claim C3 as amended: the raw score is symmetric when the lengths of the strings differ,
  and for strings of equal length when the two lists of matching characters have the
  same length or the number of transpositions is zero.
\<close>

theorem score_symmetric_amended:
  assumes "length a \<noteq> length b
     \<or> length (get_matching_characters (lower a) (lower b))
         = length (get_matching_characters (lower b) (lower a))
     \<or> transpositions (get_matching_characters (lower a) (lower b))
                       (get_matching_characters (lower b) (lower a)) = 0"
  shows "score a b = score b a"
proof (cases "length a = length b")
  case False
  then consider "length a < length b" | "length b < length a" by linarith
  then show ?thesis
    using score_unequal_lengths [of a b] score_unequal_lengths [of b a] by cases simp_all
next
  case True
  let ?m1 = "get_matching_characters (lower a) (lower b)"
  let ?m2 = "get_matching_characters (lower b) (lower a)"
  have t: "transpositions ?m2 ?m1 = transpositions ?m1 ?m2" by (rule transpositions_commute)
  from True assms consider (len) "length ?m1 = length ?m2" | (zero) "transpositions ?m1 ?m2 = 0"
    by auto
  then show ?thesis
  proof cases
    case len
    then show ?thesis
      using True by (simp add: score_equal_lengths Let_def t add.commute)
  next
    case zero
    then show ?thesis
      using True by (simp add: score_equal_lengths Let_def t add.commute)
  qed
qed

theorem score_symmetric_amended_witness:
  "length ''DIXON'' \<noteq> length ''DICKSONX''
   \<and> score ''DIXON'' ''DICKSONX'' = score ''DICKSONX'' ''DIXON''
   \<and> length (get_matching_characters (lower ''MARTHA'') (lower ''MARHTA''))
       = length (get_matching_characters (lower ''MARHTA'') (lower ''MARTHA''))
   \<and> score ''MARTHA'' ''MARHTA'' = score ''MARHTA'' ''MARTHA''"
  using score_symmetric_amended [of "''DIXON''" "''DICKSONX''"]
        score_symmetric_amended [of "''MARTHA''" "''MARHTA''"]
  by (simp add: martha_matches)

text \<open>
  Claim C4: a position of the working copy that a match has consumed is never matched
  again, also for strings that hold the sentinel character. The sentinel is the star, a
  character an input may hold: in \<^verbatim>\<open>_get_matching_characters("a*", "ab")\<close> the star of
  the first string matches position 0 of the second, which the \<^verbatim>\<open>a\<close> had consumed.
\<close>

theorem sentinel_collision:
  "get_matching_characters ''a*'' ''ab'' = ''a*''
   \<and> consumed_positions ''a*'' ''ab'' = [0, 0]
   \<and> \<not> distinct (consumed_positions ''a*'' ''ab'')
   \<and> score ''a*'' ''ab'' = 5 / 6"
  by (simp add: star_matching star_positions star_score)

text \<open>
  Claim C5: for a non-empty string \<open>s\<close>, \<^verbatim>\<open>get_jaro_distance(s, s)\<close> with the default
  parameters returns 1.0.
\<close>

theorem get_jaro_distance_identity:
  "s \<noteq> [] \<Longrightarrow> get_jaro_distance (PStr s) (PStr s) True True (1 / 10) = Inr 1"
proof -
  assume ne: "s \<noteq> []"
  have "py_round 100 = 100" using py_round_int [of 100] by simp
  then show ?thesis
    using ne by (simp add: get_jaro_distance_strings score_same)
qed

theorem get_jaro_distance_identity_witness:
  "''Dwayne'' \<noteq> [] \<and> get_jaro_distance (PStr ''Dwayne'') (PStr ''Dwayne'') True True (1 / 10) = Inr 1"
  using get_jaro_distance_identity [of "''Dwayne''"] by simp

text \<open>
  Claim C6: with a raw score and a common prefix that are not zero, the adjusted and
  rounded result with scaling 0.1 is at least the raw score. Rounding to two decimals
  can take the result below the raw score: for two strings of 17 characters that differ
  in the second one the raw score is 49/51 and the result is 0.96.
\<close>

theorem winkler_monotonicity_counterexample:
  "score ''abcdefghijklmnopq'' ''axcdefghijklmnopq'' \<noteq> 0
   \<and> length (get_prefix ''abcdefghijklmnopq'' ''axcdefghijklmnopq'') \<noteq> 0
   \<and> get_jaro_distance (PStr ''abcdefghijklmnopq'') (PStr ''axcdefghijklmnopq'')
         True True (1 / 10) = Inr (24 / 25)
   \<and> (24 / 25 :: rat) < score ''abcdefghijklmnopq'' ''axcdefghijklmnopq''"
  by (simp add: long_adjusted long_raw long_prefix)

text \<open>
  Claim C6 as amended: for non-empty strings with a non-empty common prefix the adjusted
  value before rounding is at least the raw score; the returned value, rounded to two
  decimals, is at least the raw score whenever the capped prefix length times
  (1 - raw score) is at least 0.05, so whenever the raw score is at most 0.95; it is 1
  when the raw score is 1, and at least 0.95 when the raw score is above 0.95.
\<close>

theorem winkler_monotonicity_amended:
  assumes "a \<noteq> []" "b \<noteq> []" "get_prefix a b \<noteq> []"
  shows "score a b \<le> score a b + 1 / 10 * of_nat (min (length (get_prefix a b)) 4) * (1 - score a b)
     \<and> (\<exists>r. get_jaro_distance (PStr a) (PStr b) True True (1 / 10) = Inr r
            \<and> (1 / 20 \<le> of_nat (min (length (get_prefix a b)) 4) * (1 - score a b)
                 \<longrightarrow> score a b \<le> r)
            \<and> (score a b \<le> 19 / 20 \<longrightarrow> score a b \<le> r)
            \<and> (score a b = 1 \<longrightarrow> r = 1)
            \<and> (19 / 20 < score a b \<longrightarrow> 19 / 20 \<le> r))"
proof -
  let ?jaro = "score a b" and ?cl = "min (length (get_prefix a b)) 4"
  let ?adj = "?jaro + 1 / 10 * of_nat ?cl * (1 - ?jaro)"
  let ?r = "rat_of_int (py_round (?adj * 100)) / 100"
  have j: "0 \<le> ?jaro" "?jaro \<le> 1" using score_range [of a b] by simp_all
  have c: "1 \<le> ?cl" using assms(3) by (cases "get_prefix a b") simp_all
  have up: "?jaro \<le> ?adj"
    using winkler_range(1) [OF j, of "1 / 10" ?cl] by simp
  have eq: "get_jaro_distance (PStr a) (PStr b) True True (1 / 10) = Inr ?r"
    by (simp add: get_jaro_distance_strings [OF assms(1,2)])
  have sharp: "1 / 20 \<le> of_nat ?cl * (1 - ?jaro) \<longrightarrow> ?jaro \<le> ?r"
    using winkler_rounded_sharp [of ?cl ?jaro] by blast
  have lo: "?jaro \<le> 19 / 20 \<longrightarrow> ?jaro \<le> ?r"
    using winkler_rounded_lower(1) [OF j c] by blast
  have one: "?jaro = 1 \<longrightarrow> ?r = 1"
    using winkler_rounded_one [of "1 / 10" ?cl] by auto
  have hi: "19 / 20 < ?jaro \<longrightarrow> 19 / 20 \<le> ?r"
    using winkler_rounded_lower(2) [OF j c] by blast
  show ?thesis using up eq sharp lo one hi by blast
qed

theorem winkler_monotonicity_amended_witness:
  "''MARTHA'' \<noteq> [] \<and> ''MARHTA'' \<noteq> [] \<and> get_prefix ''MARTHA'' ''MARHTA'' \<noteq> []
   \<and> score ''MARTHA'' ''MARHTA'' \<le> 19 / 20
   \<and> (\<exists>r. get_jaro_distance (PStr ''MARTHA'') (PStr ''MARHTA'') True True (1 / 10) = Inr r
          \<and> score ''MARTHA'' ''MARHTA'' \<le> r)
   \<and> get_prefix ''abcdefghijklmnopq'' ''axcdefghijklmnopq'' \<noteq> []
   \<and> 19 / 20 < score ''abcdefghijklmnopq'' ''axcdefghijklmnopq''
   \<and> (\<exists>r. get_jaro_distance (PStr ''abcdefghijklmnopq'') (PStr ''axcdefghijklmnopq'')
              True True (1 / 10) = Inr r
          \<and> 19 / 20 \<le> r)
   \<and> get_prefix ''abcdefghijklmnopq'' ''abcdefghijklmnopx'' \<noteq> []
   \<and> (1 / 20 :: rat)
        \<le> of_nat (min (length (get_prefix ''abcdefghijklmnopq'' ''abcdefghijklmnopx'')) 4)
            * (1 - score ''abcdefghijklmnopq'' ''abcdefghijklmnopx'')
   \<and> (\<exists>r. get_jaro_distance (PStr ''abcdefghijklmnopq'') (PStr ''abcdefghijklmnopx'')
              True True (1 / 10) = Inr r
          \<and> score ''abcdefghijklmnopq'' ''abcdefghijklmnopx'' \<le> r)
   \<and> score ''MARTHA'' ''MARTHA'' = 1
   \<and> get_jaro_distance (PStr ''MARTHA'') (PStr ''MARTHA'') True True (1 / 10) = Inr 1"
  using winkler_monotonicity_amended [of "''MARTHA''" "''MARHTA''"]
        winkler_monotonicity_amended [of "''abcdefghijklmnopq''" "''axcdefghijklmnopq''"]
        winkler_monotonicity_amended [of "''abcdefghijklmnopq''" "''abcdefghijklmnopx''"]
        winkler_monotonicity_amended [of "''MARTHA''" "''MARTHA''"]
  by (auto simp add: martha_raw martha_prefix long_raw long_prefix deep_prefix deep_raw score_same
        get_prefix_spec spec_common_prefix_length_same)

text \<open>
  Claim C7: for arguments that are strings or \<^verbatim>\<open>None\<close>, \<^verbatim>\<open>get_jaro_distance\<close> raises
  JaroDistanceException if and only if one of them is the empty string or \<^verbatim>\<open>None\<close>, and
  returns a value exactly on two non-empty strings.
\<close>

theorem invalid_input_iff:
  assumes "text_or_none a" "text_or_none b"
  shows "(\<exists>m. get_jaro_distance a b winkler winkler_ajustment scaling = Inl (JaroDistanceException m))
           = (a = PNone \<or> a = PStr [] \<or> b = PNone \<or> b = PStr [])
     \<and> (\<exists>r. get_jaro_distance a b winkler winkler_ajustment scaling = Inr r)
           = (\<exists>s t. a = PStr s \<and> s \<noteq> [] \<and> b = PStr t \<and> t \<noteq> [])"
proof (cases a)
  case PNone
  then show ?thesis by (simp add: get_jaro_distance_def)
next
  case sa: (PStr s)
  show ?thesis
  proof (cases b)
    case PNone
    then show ?thesis using sa by (simp add: get_jaro_distance_def)
  next
    case sb: (PStr t)
    show ?thesis
    proof (cases "s = [] \<or> t = []")
      case True
      then show ?thesis using sa sb by (auto simp add: get_jaro_distance_def)
    next
      case False
      then show ?thesis using sa sb by (simp add: get_jaro_distance_strings)
    qed
  next
    case (PList xs)
    then show ?thesis using assms by simp
  next
    case (PTuple xs)
    then show ?thesis using assms by simp
  qed
next
  case (PList xs)
  then show ?thesis using assms by simp
next
  case (PTuple xs)
  then show ?thesis using assms by simp
qed

theorem invalid_input_iff_witness:
  "text_or_none (PStr '''') \<and> text_or_none PNone \<and> text_or_none (PStr ''test'')
   \<and> (\<exists>m. get_jaro_distance (PStr '''') (PStr ''test'') True True (1 / 10)
            = Inl (JaroDistanceException m))
   \<and> (\<exists>m. get_jaro_distance PNone (PStr ''test'') True True (1 / 10)
            = Inl (JaroDistanceException m))
   \<and> (\<exists>r. get_jaro_distance (PStr ''test'') (PStr ''test'') True True (1 / 10) = Inr r)"
  using invalid_input_iff [of "PStr ''''" "PStr ''test''" True True "1 / 10"]
        invalid_input_iff [of PNone "PStr ''test''" True True "1 / 10"]
        invalid_input_iff [of "PStr ''test''" "PStr ''test''" True True "1 / 10"]
  by simp

text \<open>
  Claim C8: for a non-empty string \<open>a\<close>, \<^verbatim>\<open>get_jaro_distance_array\<close> on a list of non-empty
  strings returns a list of the same length whose \<open>i\<close>-th element is the distance to the
  \<open>i\<close>-th candidate; a second argument that is not a list is treated as the list of that
  one element; and when the first candidate that is empty or \<^verbatim>\<open>None\<close> comes after
  non-empty strings only, the call raises the exception of that candidate.
\<close>

theorem get_jaro_distance_array_spec:
  assumes "a \<noteq> []"
  shows "([] \<notin> set ss \<longrightarrow>
           (\<exists>ds. get_jaro_distance_array (PStr a) (PList (map PStr ss)) winkler winkler_ajustment scaling
                    = Inr ds
              \<and> length ds = length ss
              \<and> (\<forall>i<length ss.
                    get_jaro_distance (PStr a) (PStr (ss ! i)) winkler winkler_ajustment scaling
                      = Inr (ds ! i))))
     \<and> (\<not> is_list c \<longrightarrow>
           get_jaro_distance_array (PStr a) c winkler winkler_ajustment scaling
             = get_jaro_distance_array (PStr a) (PList [c]) winkler winkler_ajustment scaling)
     \<and> ([] \<notin> set pre \<and> (bad = PNone \<or> bad = PStr []) \<longrightarrow>
           get_jaro_distance_array (PStr a) (PList (map PStr pre @ bad # post))
               winkler winkler_ajustment scaling
             = Inl (JaroDistanceException
                      (''Cannot calculate distance from NoneType (str, '' @ class_name bad @ '')'')))"
proof (intro conjI impI)
  assume "[] \<notin> set ss"
  then show "\<exists>ds. get_jaro_distance_array (PStr a) (PList (map PStr ss)) winkler winkler_ajustment scaling
                    = Inr ds
              \<and> length ds = length ss
              \<and> (\<forall>i<length ss.
                    get_jaro_distance (PStr a) (PStr (ss ! i)) winkler winkler_ajustment scaling
                      = Inr (ds ! i))"
    using distances_strings [OF assms, of ss winkler winkler_ajustment scaling]
    by (simp add: get_jaro_distance_array_def)
next
  assume "\<not> is_list c"
  then show "get_jaro_distance_array (PStr a) c winkler winkler_ajustment scaling
             = get_jaro_distance_array (PStr a) (PList [c]) winkler winkler_ajustment scaling"
    by (simp add: get_jaro_distance_array_def)
next
  assume h: "[] \<notin> set pre \<and> (bad = PNone \<or> bad = PStr [])"
  then have "get_jaro_distance (PStr a) bad winkler winkler_ajustment scaling
      = Inl (JaroDistanceException
               (''Cannot calculate distance from NoneType (str, '' @ class_name bad @ '')''))"
    by (auto simp: get_jaro_distance_def)
  then show "get_jaro_distance_array (PStr a) (PList (map PStr pre @ bad # post))
               winkler winkler_ajustment scaling
             = Inl (JaroDistanceException
                      (''Cannot calculate distance from NoneType (str, '' @ class_name bad @ '')''))"
    using h distances_fail_fast [OF assms, of pre bad winkler winkler_ajustment scaling _ post]
    by (simp add: get_jaro_distance_array_def)
qed

theorem get_jaro_distance_array_spec_witness:
  "''cat'' \<noteq> [] \<and> [] \<notin> set [''cat'', ''bat'', ''xyz''] \<and> \<not> is_list (PStr ''bat'')
   \<and> (\<exists>ds. get_jaro_distance_array (PStr ''cat'') (PList [PStr ''cat'', PStr ''bat'', PStr ''xyz''])
              True True (1 / 10) = Inr ds \<and> length ds = 3)
   \<and> get_jaro_distance_array (PStr ''cat'') (PList [PStr ''cat'', PStr ''bat'', PStr ''xyz''])
         True True (1 / 10) = Inr [1, 39 / 50, 0]
   \<and> get_jaro_distance_array (PStr ''cat'') (PStr ''bat'') True True (1 / 10)
       = get_jaro_distance_array (PStr ''cat'') (PList [PStr ''bat'']) True True (1 / 10)
   \<and> get_jaro_distance_array (PStr ''cat'') (PList [PStr ''bat'', PNone, PStr '''']) True True (1 / 10)
       = Inl (JaroDistanceException ''Cannot calculate distance from NoneType (str, NoneType)'')"
  using get_jaro_distance_array_spec [of "''cat''" "[''cat'', ''bat'', ''xyz'']" True True "1 / 10"
          "PStr ''bat''" "[''bat'']" PNone "[PStr '''']"]
  by (auto simp: numeral_3_eq_3 batch_example)



text \<open>
  Claim C10: \<^verbatim>\<open>get_jaro_distance_array\<close> iterates over its second argument only when it
  is a list; any other value, a tuple of strings included, is passed whole to
  \<^verbatim>\<open>get_jaro_distance\<close> as the only candidate.
\<close>

theorem only_list_is_iterated:
  "(is_list second \<longrightarrow>
      (\<exists>cs. second = PList cs
         \<and> get_jaro_distance_array first second winkler winkler_ajustment scaling
             = distances first cs winkler winkler_ajustment scaling))
   \<and> (\<not> is_list second \<longrightarrow>
        get_jaro_distance_array first second winkler winkler_ajustment scaling
          = (case get_jaro_distance first second winkler winkler_ajustment scaling of
               Inl e \<Rightarrow> Inl e | Inr d \<Rightarrow> Inr [d]))
   \<and> get_jaro_distance_array first (PTuple xs) winkler winkler_ajustment scaling
        = (case get_jaro_distance first (PTuple xs) winkler winkler_ajustment scaling of
             Inl e \<Rightarrow> Inl e | Inr d \<Rightarrow> Inr [d])"
  by (cases second) (simp_all add: get_jaro_distance_array_def split: sum.splits)

theorem only_list_is_iterated_witness:
  "\<not> is_list (PTuple [PStr ''cat'', PStr ''bat''])
   \<and> get_jaro_distance_array (PStr ''cat'') (PTuple [PStr ''cat'', PStr ''bat'']) True True (1 / 10)
       = Inl AttributeError
   \<and> is_list (PList [PStr ''cat''])
   \<and> get_jaro_distance_array (PStr ''cat'') (PList [PStr ''cat'']) True True (1 / 10)
       = distances (PStr ''cat'') [PStr ''cat''] True True (1 / 10)"
  using only_list_is_iterated [of "PTuple [PStr ''cat'', PStr ''bat'']" "PStr ''cat''" True True "1 / 10" "[]"]
        only_list_is_iterated [of "PList [PStr ''cat'']" "PStr ''cat''" True True "1 / 10" "[]"]
  by (simp add: tuple_whole)

end
